theory Spec2Isabelle
  imports Main "HOL-Library.AList"
begin

section \<open>Real-time event distribution: registry, router, bridge and session gate\<close>

text \<open>
  The development embeds \<^verbatim>\<open>src/backend/src/api/routes/websocket.py\<close> (class
  \<^verbatim>\<open>ConnectionManager\<close>, \<^verbatim>\<open>websocket_endpoint\<close>, \<^verbatim>\<open>publish_via_redis\<close>) and
  \<^verbatim>\<open>verify_clerk_token\<close> / \<^verbatim>\<open>verify_ws_token\<close> of \<^verbatim>\<open>src/backend/src/api/dependencies.py\<close>.

  Conventions of the model.
  \<^item> A Python \<^verbatim>\<open>dict\<close> is an association list in insertion order, read with \<open>map_of\<close>,
    written with \<open>AList.update\<close> (an existing key keeps its place, a new key goes to the
    end) and \<open>AList.delete\<close>.
  \<^item> A Python \<^verbatim>\<open>set\<close> of identities is a list read through \<open>set\<close>: \<^verbatim>\<open>add\<close> appends an
    absent element, \<^verbatim>\<open>discard\<close> removes every occurrence. The order of the list stands for
    the (unspecified) order in which Python iterates the set; every theorem below holds for
    every order.
  \<^item> A WebSocket object is a handle (a number); two handles are the same connection exactly
    when they are equal, as Starlette compares connection objects by identity.
  \<^item> Every effect on the outside world (a frame sent on a socket, a close, a publish on the
    broker, an error or warning written to the log) is one entry of a trace, oldest first.
    Whether an outside call raises is decided by the environment, which may look at the
    whole trace so far; a raised exception is a value \<open>Raise e\<close>.
  \<^item> Each call runs to its end without another task changing the registry in between;
    \<^verbatim>\<open>logger.info\<close> and \<^verbatim>\<open>logger.debug\<close> calls are left out.
\<close>

subsection \<open>Values\<close>

type_synonym ws = nat

text \<open>
  JSON values as Python holds them after \<^verbatim>\<open>json.loads\<close> (floats left out). An object is a
  \<^verbatim>\<open>dict\<close>, so the keys of a \<open>JObj\<close> that stands for one are distinct.
\<close>

datatype json =
    JNull
  | JBool bool
  | JNum int
  | JStr string
  | JArr "json list"
  | JObj "(string \<times> json) list"

text \<open>Python truthiness, as used by \<^verbatim>\<open>if topic:\<close>, \<^verbatim>\<open>if not claims:\<close>, \<^verbatim>\<open>if not clerk_id:\<close>.\<close>

fun truthy :: "json \<Rightarrow> bool" where
  "truthy JNull = False"
| "truthy (JBool b) = b"
| "truthy (JNum n) = (n \<noteq> 0)"
| "truthy (JStr s) = (s \<noteq> [])"
| "truthy (JArr xs) = (xs \<noteq> [])"
| "truthy (JObj kvs) = (kvs \<noteq> [])"

text \<open>\<^verbatim>\<open>d.get(key)\<close> on a \<^verbatim>\<open>dict\<close>: the value, or \<^verbatim>\<open>None\<close> when the key is absent.\<close>

definition dict_get :: "(string \<times> json) list \<Rightarrow> string \<Rightarrow> json" where
  "dict_get kvs k = (case map_of kvs k of None \<Rightarrow> JNull | Some v \<Rightarrow> v)"

text \<open>
  The exceptions the model tells apart. All of them are subclasses of \<^verbatim>\<open>Exception\<close>, so
  \<^verbatim>\<open>except Exception\<close> catches each; the cancellation of a task is outside the model.
\<close>

datatype exn =
    SendError
  | AcceptError
  | CloseError
  | WebSocketDisconnect
  | JSONDecodeError
  | AttributeError
  | TypeError
  | IndexError
  | RedisError
  | ExpiredSignatureError
  | InvalidSignatureError
  | DecodeError
  | InvalidTokenError
  | OtherError
  | MultipleResultsFound

datatype 'a res = Ret 'a | Raise exn

subsection \<open>The connection manager\<close>

record manager =
  active_connections :: "(string \<times> ws list) list"
  subscriptions :: "(string \<times> string list) list"

text \<open>\<^verbatim>\<open>ConnectionManager.__init__\<close>\<close>

definition init_manager :: manager where
  "init_manager = \<lparr>active_connections = [], subscriptions = []\<rparr>"

text \<open>\<^verbatim>\<open>s.add(x)\<close> and \<^verbatim>\<open>s.discard(x)\<close> on a set.\<close>

definition set_add :: "string \<Rightarrow> string list \<Rightarrow> string list" where
  "set_add x s = (if x \<in> set s then s else s @ [x])"

definition set_discard :: "string \<Rightarrow> string list \<Rightarrow> string list" where
  "set_discard x s = removeAll x s"

text \<open>
  The registration part of \<^verbatim>\<open>connect\<close> (lines 35-38), after \<^verbatim>\<open>websocket.accept()\<close> has
  returned: create the list if the key is absent, then append.
\<close>

definition register :: "ws \<Rightarrow> string \<Rightarrow> manager \<Rightarrow> manager" where
  "register websocket user_id m =
     (let ac = (if map_of (active_connections m) user_id = None
                then AList.update user_id [] (active_connections m)
                else active_connections m)
      in m\<lparr>active_connections :=
             (case map_of ac user_id of
                None \<Rightarrow> ac
              | Some conns \<Rightarrow> AList.update user_id (conns @ [websocket]) ac)\<rparr>)"

text \<open>
  \<^verbatim>\<open>disconnect\<close> (lines 42-55). The loop over \<^verbatim>\<open>self.subscriptions\<close> stands outside both
  \<^verbatim>\<open>if\<close>s: it runs on every call.
\<close>

definition disconnect :: "ws \<Rightarrow> string \<Rightarrow> manager \<Rightarrow> manager" where
  "disconnect websocket user_id m =
     (let ac =
        (case map_of (active_connections m) user_id of
           None \<Rightarrow> active_connections m
         | Some conns \<Rightarrow>
             (let conns' = (if websocket \<in> set conns then remove1 websocket conns else conns)
              in if conns' = []
                 then AList.delete user_id (active_connections m)
                 else AList.update user_id conns' (active_connections m)))
      in \<lparr>active_connections = ac,
          subscriptions = map (\<lambda>(topic, users). (topic, set_discard user_id users))
                              (subscriptions m)\<rparr>)"

definition subscribe :: "string \<Rightarrow> string \<Rightarrow> manager \<Rightarrow> manager" where
  "subscribe user_id topic m =
     (let subs = (if map_of (subscriptions m) topic = None
                  then AList.update topic [] (subscriptions m)
                  else subscriptions m)
      in m\<lparr>subscriptions :=
             (case map_of subs topic of
                None \<Rightarrow> subs
              | Some users \<Rightarrow> AList.update topic (set_add user_id users) subs)\<rparr>)"

definition unsubscribe :: "string \<Rightarrow> string \<Rightarrow> manager \<Rightarrow> manager" where
  "unsubscribe user_id topic m =
     (case map_of (subscriptions m) topic of
        None \<Rightarrow> m
      | Some users \<Rightarrow>
          m\<lparr>subscriptions := AList.update topic (set_discard user_id users) (subscriptions m)\<rparr>)"

text \<open>
  The two snapshots the router reads: \<^verbatim>\<open>self.active_connections[user_id]\<close> guarded by
  \<^verbatim>\<open>user_id in self.active_connections\<close>, and \<^verbatim>\<open>self.subscriptions[topic]\<close> guarded by
  \<^verbatim>\<open>topic in self.subscriptions\<close>; empty when the key is absent.
\<close>

definition connections_for :: "manager \<Rightarrow> string \<Rightarrow> ws list" where
  "connections_for m user_id =
     (case map_of (active_connections m) user_id of None \<Rightarrow> [] | Some conns \<Rightarrow> conns)"

definition subscribers_of :: "manager \<Rightarrow> string \<Rightarrow> string set" where
  "subscribers_of m topic =
     (case map_of (subscriptions m) topic of None \<Rightarrow> {} | Some users \<Rightarrow> set users)"

subsection \<open>The outside world\<close>

text \<open>
  \<open>Dumps v\<close> is the text \<^verbatim>\<open>json.dumps\<close> gives for \<open>v\<close>. \<^verbatim>\<open>send_json(v)\<close> of Starlette sends
  the same document with other separators; the model does not tell the two texts apart.
\<close>

datatype wire = Dumps json

datatype event =
    Accept ws bool
  | SendText ws wire bool
  | Close ws nat string bool
  | Publish string wire bool
  | Log string string

text \<open>
  The flag of \<open>Accept\<close>, \<open>SendText\<close>, \<open>Close\<close> and \<open>Publish\<close> tells whether the call returned
  (\<open>True\<close>) or raised. \<open>Log level name\<close> is a \<^verbatim>\<open>logger.warning\<close> or \<^verbatim>\<open>logger.error\<close> call.
\<close>

record user =
  id_str :: string
  is_active :: bool

record env =
  accept_raises :: "event list \<Rightarrow> ws \<Rightarrow> exn option"
  send_raises :: "event list \<Rightarrow> ws \<Rightarrow> exn option"
  close_raises :: "event list \<Rightarrow> ws \<Rightarrow> exn option"
  get_redis :: "event list \<Rightarrow> bool"
  publish_raises :: "event list \<Rightarrow> exn option"
  utcnow :: "event list \<Rightarrow> string"
  py_str :: "json \<Rightarrow> string"
  jwks_client :: bool
  get_signing_key_from_jwt :: "string \<Rightarrow> string res"
  jwt_decode :: "string \<Rightarrow> string \<Rightarrow> (string \<times> json) list res"
  select_users :: "json \<Rightarrow> user list res"

text \<open>
  The environment fixes what the code cannot decide: whether a socket or broker call raises
  (and what), whether \<^verbatim>\<open>get_redis()\<close> of \<^verbatim>\<open>src/core/redis.py\<close> returns a client (what that
  function logs on its own is not traced), the clock, Python's \<^verbatim>\<open>str()\<close> of a value, the PyJWT library (\<^verbatim>\<open>get_signing_key_from_jwt\<close>, \<^verbatim>\<open>jwt.decode\<close>) and the rows the
  database returns for \<^verbatim>\<open>User.settings["clerk_id"].astext == clerk_id\<close>.
\<close>

definition send_text :: "env \<Rightarrow> ws \<Rightarrow> wire \<Rightarrow> event list \<Rightarrow> unit res \<times> event list" where
  "send_text env websocket data tr =
     (case send_raises env tr websocket of
        None \<Rightarrow> (Ret (), tr @ [SendText websocket data True])
      | Some e \<Rightarrow> (Raise e, tr @ [SendText websocket data False]))"

definition send_json :: "env \<Rightarrow> ws \<Rightarrow> json \<Rightarrow> event list \<Rightarrow> unit res \<times> event list" where
  "send_json env websocket data tr = send_text env websocket (Dumps data) tr"

definition accept :: "env \<Rightarrow> ws \<Rightarrow> event list \<Rightarrow> unit res \<times> event list" where
  "accept env websocket tr =
     (case accept_raises env tr websocket of
        None \<Rightarrow> (Ret (), tr @ [Accept websocket True])
      | Some e \<Rightarrow> (Raise e, tr @ [Accept websocket False]))"

definition close :: "env \<Rightarrow> ws \<Rightarrow> nat \<Rightarrow> string \<Rightarrow> event list \<Rightarrow> unit res \<times> event list" where
  "close env websocket code reason tr =
     (case close_raises env tr websocket of
        None \<Rightarrow> (Ret (), tr @ [Close websocket code reason True])
      | Some e \<Rightarrow> (Raise e, tr @ [Close websocket code reason False]))"

definition redis_publish :: "env \<Rightarrow> string \<Rightarrow> wire \<Rightarrow> event list \<Rightarrow> unit res \<times> event list" where
  "redis_publish env channel message tr =
     (case publish_raises env tr of
        None \<Rightarrow> (Ret (), tr @ [Publish channel message True])
      | Some e \<Rightarrow> (Raise e, tr @ [Publish channel message False]))"

text \<open>\<^verbatim>\<open>connect\<close> (lines 31-40): nothing is registered when \<^verbatim>\<open>accept\<close> raises.\<close>

definition connect ::
  "env \<Rightarrow> ws \<Rightarrow> string \<Rightarrow> manager \<times> event list \<Rightarrow> unit res \<times> manager \<times> event list" where
  "connect env websocket user_id st =
     (case st of (m, tr) \<Rightarrow>
        (case accept env websocket tr of
           (Raise e, tr') \<Rightarrow> (Raise e, m, tr')
         | (Ret _, tr') \<Rightarrow> (Ret (), register websocket user_id m, tr')))"

subsection \<open>The topic router\<close>

text \<open>
  The inner loop of the three send functions:
  \<^verbatim>\<open>for ws in conns: try: await ws.send_text(message_json) except Exception: logger.error(name)\<close>.
\<close>

fun send_each :: "env \<Rightarrow> string \<Rightarrow> wire \<Rightarrow> ws list \<Rightarrow> event list \<Rightarrow> unit res \<times> event list" where
  "send_each env name message_json [] tr = (Ret (), tr)"
| "send_each env name message_json (w # rest) tr =
     (case send_text env w message_json tr of
        (Ret _, tr') \<Rightarrow> send_each env name message_json rest tr'
      | (Raise e, tr') \<Rightarrow> send_each env name message_json rest (tr' @ [Log ''error'' name]))"

definition send_personal ::
  "env \<Rightarrow> manager \<Rightarrow> string \<Rightarrow> json \<Rightarrow> event list \<Rightarrow> unit res \<times> event list" where
  "send_personal env m user_id message tr =
     (case map_of (active_connections m) user_id of
        None \<Rightarrow> (Ret (), tr)
      | Some conns \<Rightarrow> send_each env ''websocket_send_error'' (Dumps message) conns tr)"

text \<open>The loop \<^verbatim>\<open>for user_id in self.subscriptions[topic]\<close> of \<^verbatim>\<open>broadcast_to_topic\<close>.\<close>

fun topic_loop ::
  "env \<Rightarrow> manager \<Rightarrow> wire \<Rightarrow> string list \<Rightarrow> event list \<Rightarrow> unit res \<times> event list" where
  "topic_loop env m message_json [] tr = (Ret (), tr)"
| "topic_loop env m message_json (user_id # rest) tr =
     (case map_of (active_connections m) user_id of
        None \<Rightarrow> topic_loop env m message_json rest tr
      | Some conns \<Rightarrow>
          (case send_each env ''websocket_broadcast_error'' message_json conns tr of
             (Ret _, tr') \<Rightarrow> topic_loop env m message_json rest tr'
           | (Raise e, tr') \<Rightarrow> (Raise e, tr')))"

definition broadcast_to_topic ::
  "env \<Rightarrow> manager \<Rightarrow> string \<Rightarrow> json \<Rightarrow> event list \<Rightarrow> unit res \<times> event list" where
  "broadcast_to_topic env m topic message tr =
     (case map_of (subscriptions m) topic of
        None \<Rightarrow> (Ret (), tr)
      | Some users \<Rightarrow> topic_loop env m (Dumps message) users tr)"

text \<open>The loop \<^verbatim>\<open>for user_id, connections in self.active_connections.items()\<close>.\<close>

fun all_loop ::
  "env \<Rightarrow> wire \<Rightarrow> (string \<times> ws list) list \<Rightarrow> event list \<Rightarrow> unit res \<times> event list" where
  "all_loop env message_json [] tr = (Ret (), tr)"
| "all_loop env message_json ((user_id, connections) # rest) tr =
     (case send_each env ''websocket_broadcast_all_error'' message_json connections tr of
        (Ret _, tr') \<Rightarrow> all_loop env message_json rest tr'
      | (Raise e, tr') \<Rightarrow> (Raise e, tr'))"

definition broadcast_all :: "env \<Rightarrow> manager \<Rightarrow> json \<Rightarrow> event list \<Rightarrow> unit res \<times> event list" where
  "broadcast_all env m message tr = all_loop env (Dumps message) (active_connections m) tr"

subsection \<open>The distributed bridge\<close>

text \<open>\<^verbatim>\<open>s.startswith(p)\<close>, and \<^verbatim>\<open>s.split(":", 1)[1]\<close>: what follows the first colon.\<close>

definition startswith :: "string \<Rightarrow> string \<Rightarrow> bool" where
  "startswith s p = (take (length p) s = p)"

definition split_colon_1 :: "string \<Rightarrow> string res" where
  "split_colon_1 s =
     (if CHR '':'' \<in> set s then Ret (tl (dropWhile (\<lambda>c. c \<noteq> CHR '':'') s))
      else Raise IndexError)"

definition publish_via_redis ::
  "env \<Rightarrow> manager \<Rightarrow> string \<Rightarrow> json \<Rightarrow> event list \<Rightarrow> unit res \<times> event list" where
  "publish_via_redis env m target payload tr =
     (case
        (if get_redis env tr
         then redis_publish env ''verifiai:ws:broadcast''
                (Dumps (JObj [(''target'', JStr target), (''payload'', payload)])) tr
         else if target = ''all'' then broadcast_all env m payload tr
         else if startswith target ''user:'' then
           (case split_colon_1 target of
              Raise e \<Rightarrow> (Raise e, tr)
            | Ret user_id \<Rightarrow> send_personal env m user_id payload tr)
         else if startswith target ''topic:'' then
           (case split_colon_1 target of
              Raise e \<Rightarrow> (Raise e, tr)
            | Ret topic \<Rightarrow> broadcast_to_topic env m topic payload tr)
         else (Ret (), tr))
      of
        (Ret _, tr') \<Rightarrow> (Ret (), tr')
      | (Raise e, tr') \<Rightarrow> (Ret (), tr' @ [Log ''error'' ''redis_publish_error'']))"

subsection \<open>The session gate\<close>

text \<open>
  The exceptions of PyJWT that \<^verbatim>\<open>except jwt.InvalidTokenError\<close> catches: the class itself and
  its subclasses (a malformed token raises \<^verbatim>\<open>DecodeError\<close>, a bad signature
  \<^verbatim>\<open>InvalidSignatureError\<close>, an expired token \<^verbatim>\<open>ExpiredSignatureError\<close>).
\<close>

definition is_InvalidTokenError :: "exn \<Rightarrow> bool" where
  "is_InvalidTokenError e =
     (e = InvalidTokenError \<or> e = DecodeError \<or> e = InvalidSignatureError
      \<or> e = ExpiredSignatureError)"

definition get_jwks_client :: "env \<Rightarrow> event list \<Rightarrow> bool \<times> event list" where
  "get_jwks_client env tr =
     (if jwks_client env then (True, tr)
      else (False, tr @ [Log ''error'' ''jwks_client_init_error'']))"

definition verify_clerk_token ::
  "env \<Rightarrow> string \<Rightarrow> event list \<Rightarrow> (string \<times> json) list option \<times> event list" where
  "verify_clerk_token env token tr =
     (case get_jwks_client env tr of
        (False, tr1) \<Rightarrow> (None, tr1 @ [Log ''error'' ''jwks_client_not_available''])
      | (True, tr1) \<Rightarrow>
          (case (case get_signing_key_from_jwt env token of
                   Raise e \<Rightarrow> Raise e
                 | Ret signing_key \<Rightarrow> jwt_decode env token signing_key)
           of
             Ret payload \<Rightarrow> (Some payload, tr1)
           | Raise e \<Rightarrow>
               if e = ExpiredSignatureError then (None, tr1 @ [Log ''warning'' ''token_expired''])
               else if is_InvalidTokenError e then (None, tr1 @ [Log ''warning'' ''token_invalid''])
               else (None, tr1 @ [Log ''error'' ''token_verification_error''])))"

text \<open>\<^verbatim>\<open>result.scalar_one_or_none()\<close>\<close>

fun scalar_one_or_none :: "user list \<Rightarrow> user option res" where
  "scalar_one_or_none [] = Ret None"
| "scalar_one_or_none [u] = Ret (Some u)"
| "scalar_one_or_none (u # v # rest) = Raise MultipleResultsFound"

definition verify_ws_token ::
  "env \<Rightarrow> string \<Rightarrow> event list \<Rightarrow> user option res \<times> event list" where
  "verify_ws_token env token tr =
     (case verify_clerk_token env token tr of
        (None, tr1) \<Rightarrow> (Ret None, tr1)
      | (Some claims, tr1) \<Rightarrow>
          if claims = [] then (Ret None, tr1)
          else
            (let clerk_id = dict_get claims ''sub'' in
             if \<not> truthy clerk_id then (Ret None, tr1)
             else
               (case select_users env clerk_id of
                  Raise e \<Rightarrow> (Raise e, tr1)
                | Ret rows \<Rightarrow>
                    (case scalar_one_or_none rows of
                       Raise e \<Rightarrow> (Raise e, tr1)
                     | Ret None \<Rightarrow> (Ret None, tr1)
                     | Ret (Some u) \<Rightarrow>
                         if is_active u then (Ret (Some u), tr1) else (Ret None, tr1)))))"

subsection \<open>The endpoint\<close>

text \<open>
  What \<^verbatim>\<open>websocket.receive_json()\<close> gives for the next inbound event: the peer is gone
  (\<^verbatim>\<open>WebSocketDisconnect\<close>), a frame whose text is not JSON (\<^verbatim>\<open>json.loads\<close> raises), or the
  parsed value.
\<close>

datatype frame = Disconnected | NotJson | Parsed json

definition receive_json :: "frame \<Rightarrow> json res" where
  "receive_json f =
     (case f of
        Disconnected \<Rightarrow> Raise WebSocketDisconnect
      | NotJson \<Rightarrow> Raise JSONDecodeError
      | Parsed data \<Rightarrow> Ret data)"

text \<open>
  The topic a client names becomes a key of \<^verbatim>\<open>self.subscriptions\<close>. A string is used as it
  is; a list or an object cannot be hashed (\<^verbatim>\<open>TypeError\<close>). A truthy number or boolean
  would be stored by Python as a key that is not a \<^verbatim>\<open>str\<close>, which the registry of the
  model (keys are strings, as the source annotates them) cannot hold: \<open>None\<close>.
\<close>

fun topic_key :: "json \<Rightarrow> string res option" where
  "topic_key (JStr s) = Some (Ret s)"
| "topic_key (JArr xs) = Some (Raise TypeError)"
| "topic_key (JObj kvs) = Some (Raise TypeError)"
| "topic_key JNull = None"
| "topic_key (JBool b) = None"
| "topic_key (JNum n) = None"

text \<open>
  One turn of the \<^verbatim>\<open>while True\<close> loop (lines 247-283). The result is \<open>None\<close> only where
  \<open>topic_key\<close> is.
\<close>

definition handle_frame ::
  "env \<Rightarrow> ws \<Rightarrow> string \<Rightarrow> frame \<Rightarrow> manager \<times> event list
     \<Rightarrow> (unit res \<times> manager \<times> event list) option" where
  "handle_frame env websocket user_id f st =
     (case st of (m, tr) \<Rightarrow>
      (case receive_json f of
         Raise e \<Rightarrow> Some (Raise e, m, tr)
       | Ret data \<Rightarrow>
          (case data of
             JObj kvs \<Rightarrow>
               (let action = dict_get kvs ''action'' in
                if action = JStr ''ping'' then
                  (case send_json env websocket
                          (JObj [(''type'', JStr ''pong''), (''timestamp'', JStr (utcnow env tr))]) tr
                   of (r, tr') \<Rightarrow> Some (r, m, tr'))
                else if action = JStr ''subscribe'' then
                  (let topic = dict_get kvs ''topic'' in
                   if truthy topic then
                     (case topic_key topic of
                        None \<Rightarrow> None
                      | Some (Raise e) \<Rightarrow> Some (Raise e, m, tr)
                      | Some (Ret t) \<Rightarrow>
                          (let m' = subscribe user_id t m in
                           case send_json env websocket
                                  (JObj [(''type'', JStr ''subscribed''),
                                         (''timestamp'', JStr (utcnow env tr)),
                                         (''data'', JObj [(''topic'', topic)])]) tr
                           of (r, tr') \<Rightarrow> Some (r, m', tr')))
                   else Some (Ret (), m, tr))
                else if action = JStr ''unsubscribe'' then
                  (let topic = dict_get kvs ''topic'' in
                   if truthy topic then
                     (case topic_key topic of
                        None \<Rightarrow> None
                      | Some (Raise e) \<Rightarrow> Some (Raise e, m, tr)
                      | Some (Ret t) \<Rightarrow>
                          (let m' = unsubscribe user_id t m in
                           case send_json env websocket
                                  (JObj [(''type'', JStr ''unsubscribed''),
                                         (''timestamp'', JStr (utcnow env tr)),
                                         (''data'', JObj [(''topic'', topic)])]) tr
                           of (r, tr') \<Rightarrow> Some (r, m', tr')))
                   else Some (Ret (), m, tr))
                else
                  (case send_json env websocket
                          (JObj [(''type'', JStr ''error''),
                                 (''timestamp'', JStr (utcnow env tr)),
                                 (''data'', JObj [(''message'',
                                     JStr (''Unknown action: '' @ py_str env action))])]) tr
                   of (r, tr') \<Rightarrow> Some (r, m, tr')))
           | _ \<Rightarrow> Some (Raise AttributeError, m, tr))))"

text \<open>
  How a run of the endpoint stands after the inbound events given to it: it has returned,
  an exception has left it, it waits in \<^verbatim>\<open>receive_json\<close> for the next event, or it has met a
  topic outside the model.
\<close>

datatype status = Returned | Raised exn | Receiving | NonStrTopic

text \<open>
  The \<^verbatim>\<open>try: while True: ... except WebSocketDisconnect: ... except Exception: ...\<close> of lines
  245-289, over the inbound events in order.
\<close>

fun message_loop ::
  "env \<Rightarrow> ws \<Rightarrow> string \<Rightarrow> frame list \<Rightarrow> manager \<times> event list
     \<Rightarrow> status \<times> manager \<times> event list" where
  "message_loop env websocket user_id [] st = (Receiving, st)"
| "message_loop env websocket user_id (f # fs) st =
     (case handle_frame env websocket user_id f st of
        None \<Rightarrow> (NonStrTopic, st)
      | Some (Ret _, m', tr') \<Rightarrow> message_loop env websocket user_id fs (m', tr')
      | Some (Raise e, m', tr') \<Rightarrow>
          if e = WebSocketDisconnect
          then (Returned, disconnect websocket user_id m', tr')
          else (Returned, disconnect websocket user_id m',
                tr' @ [Log ''error'' ''websocket_error'']))"

definition connected_message :: "env \<Rightarrow> string \<Rightarrow> event list \<Rightarrow> json" where
  "connected_message env user_id tr =
     JObj [(''type'', JStr ''connected''),
           (''timestamp'', JStr (utcnow env tr)),
           (''data'', JObj [(''user_id'', JStr user_id),
                            (''message'', JStr ''Connected to VerifiAI real-time updates''),
                            (''subscriptions'', JArr [JStr ''proofs'', JStr ''agents'',
                                                      JStr ''settlements'', JStr ''platform''])])]"

definition websocket_endpoint ::
  "env \<Rightarrow> ws \<Rightarrow> string \<Rightarrow> frame list \<Rightarrow> manager \<times> event list
     \<Rightarrow> status \<times> manager \<times> event list" where
  "websocket_endpoint env websocket token frames st =
     (case st of (m, tr) \<Rightarrow>
      (case verify_ws_token env token tr of
         (Raise e, tr1) \<Rightarrow> (Raised e, m, tr1)
       | (Ret None, tr1) \<Rightarrow>
           (case close env websocket 4001 ''Invalid authentication token'' tr1 of
              (Raise e, tr2) \<Rightarrow> (Raised e, m, tr2)
            | (Ret _, tr2) \<Rightarrow> (Returned, m, tr2))
       | (Ret (Some u), tr1) \<Rightarrow>
           (let user_id = id_str u in
            case connect env websocket user_id (m, tr1) of
              (Raise e, m1, tr2) \<Rightarrow> (Raised e, m1, tr2)
            | (Ret _, m1, tr2) \<Rightarrow>
                (let m2 = subscribe user_id ''platform''
                            (subscribe user_id ''settlements''
                              (subscribe user_id ''agents''
                                (subscribe user_id ''proofs'' m1)))
                 in case send_json env websocket (connected_message env user_id tr2) tr2 of
                      (Raise e, tr3) \<Rightarrow> (Raised e, m2, tr3)
                    | (Ret _, tr3) \<Rightarrow> message_loop env websocket user_id frames (m2, tr3)))))"

subsection \<open>Observations on a trace\<close>

text \<open>
  The calls of \<^verbatim>\<open>send_text\<close> / \<^verbatim>\<open>send_json\<close> recorded in a trace, in order: the connection,
  the text, and whether the call returned. \<open>delivered w tr\<close> is what connection \<open>w\<close> was
  sent with success, oldest first.
\<close>

fun send_attempts :: "event list \<Rightarrow> (ws \<times> wire \<times> bool) list" where
  "send_attempts [] = []"
| "send_attempts (SendText w x ok # es) = (w, x, ok) # send_attempts es"
| "send_attempts (Accept w ok # es) = send_attempts es"
| "send_attempts (Close w c r ok # es) = send_attempts es"
| "send_attempts (Publish c x ok # es) = send_attempts es"
| "send_attempts (Log l n # es) = send_attempts es"

definition delivered :: "ws \<Rightarrow> event list \<Rightarrow> wire list" where
  "delivered w tr = map (\<lambda>(w', x, ok). x) (filter (\<lambda>(w', x, ok). w' = w \<and> ok) (send_attempts tr))"

subsection \<open>A concrete world\<close>

text \<open>
  An environment in which every send on connection 1 raises and nothing else does, there is
  no broker, the token \<^verbatim>\<open>good\<close> verifies and every other token has expired, and the
  database knows the active user \<^verbatim>\<open>alice\<close>.
\<close>

definition example_env :: env where
  "example_env =
     \<lparr>accept_raises = (\<lambda>tr w. None),
      send_raises = (\<lambda>tr w. if w = 1 then Some SendError else None),
      close_raises = (\<lambda>tr w. None),
      get_redis = (\<lambda>tr. False),
      publish_raises = (\<lambda>tr. None),
      utcnow = (\<lambda>tr. ''2026-01-01T00:00:00''),
      py_str = (\<lambda>j. case j of JStr s \<Rightarrow> s | _ \<Rightarrow> ''None''),
      jwks_client = True,
      get_signing_key_from_jwt = (\<lambda>token. Ret ''key''),
      jwt_decode = (\<lambda>token key.
         if token = ''good'' then Ret [(''sub'', JStr ''clerk_1'')] else Raise ExpiredSignatureError),
      select_users = (\<lambda>clerk_id. Ret [\<lparr>id_str = ''alice'', is_active = True\<rparr>])\<rparr>"

definition example_manager :: manager where
  "example_manager =
     \<lparr>active_connections = [(''alice'', [1, 2]), (''bob'', [3])],
      subscriptions = [(''proofs'', [''alice'', ''carol'']), (''platform'', [''alice'', ''bob''])]\<rparr>"


subsection \<open>Sequences of registry calls\<close>

text \<open>
  A \<^verbatim>\<open>connect\<close> or \<^verbatim>\<open>disconnect\<close> call, and a run of such calls in order. A \<^verbatim>\<open>connect\<close> whose
  \<^verbatim>\<open>accept\<close> raises leaves the registry as it was, and the run goes on.
\<close>

datatype call = Register ws string | Unregister ws string

fun run_calls :: "env \<Rightarrow> call list \<Rightarrow> manager \<times> event list \<Rightarrow> manager \<times> event list" where
  "run_calls env [] st = st"
| "run_calls env (Register w u # calls) st =
     (case connect env w u st of (r, m', tr') \<Rightarrow> run_calls env calls (m', tr'))"
| "run_calls env (Unregister w u # calls) st =
     (case st of (m, tr) \<Rightarrow> run_calls env calls (disconnect w u m, tr))"

text \<open>A registry in which \<^verbatim>\<open>alice\<close> is the one subscriber of \<^verbatim>\<open>swarm:42\<close>.\<close>

definition subscribed_manager :: manager where
  "subscribed_manager = \<lparr>active_connections = [], subscriptions = [(''swarm:42'', [''alice''])]\<rparr>"

text \<open>The keys of the dictionary are distinct and no key holds the empty list.\<close>

definition registry_inv :: "manager \<Rightarrow> bool" where
  "registry_inv m \<longleftrightarrow>
     distinct (map fst (active_connections m)) \<and> (\<forall>u. map_of (active_connections m) u \<noteq> Some [])"

text \<open>The calls of \<^verbatim>\<open>redis.publish\<close> recorded in a trace, in order.\<close>

fun publishes :: "event list \<Rightarrow> (string \<times> wire \<times> bool) list" where
  "publishes [] = []"
| "publishes (Publish c x ok # es) = (c, x, ok) # publishes es"
| "publishes (SendText w x ok # es) = publishes es"
| "publishes (Accept w ok # es) = publishes es"
| "publishes (Close w c r ok # es) = publishes es"
| "publishes (Log l n # es) = publishes es"

text \<open>
  The concrete world with a broker: \<open>broker_env\<close> has a client whose publish returns,
  \<open>broken_broker_env\<close> a client whose publish raises.
\<close>

definition broker_env :: env where
  "broker_env = example_env\<lparr>get_redis := (\<lambda>tr. True)\<rparr>"

definition broken_broker_env :: env where
  "broken_broker_env =
     example_env\<lparr>get_redis := (\<lambda>tr. True), publish_raises := (\<lambda>tr. Some RedisError)\<rparr>"

text \<open>
  The state after \<^verbatim>\<open>alice\<close> has opened connection 2 with the token \<^verbatim>\<open>good\<close> and has
  subscribed to \<^verbatim>\<open>swarm:42\<close> on it.
\<close>

definition after_first_connection :: "manager \<times> event list" where
  "after_first_connection =
     snd (websocket_endpoint example_env 2 ''good''
            [Parsed (JObj [(''action'', JStr ''subscribe''), (''topic'', JStr ''swarm:42'')])]
            (init_manager, []))"

section \<open>Properties\<close>

subsection \<open>Sending\<close>

lemma send_attempts_append: "send_attempts (a @ b) = send_attempts a @ send_attempts b"
  by (induction a rule: send_attempts.induct) simp_all

lemma send_each_spec:
  "\<exists>new. send_each env name x conns tr = (Ret (), tr @ new)
     \<and> map (\<lambda>(w, y, ok). (w, y)) (send_attempts new) = map (\<lambda>w. (w, x)) conns
     \<and> (\<forall>w y. (w, y, False) \<in> set (send_attempts new) \<longrightarrow> (\<exists>tr0. send_raises env tr0 w \<noteq> None))
     \<and> (\<forall>w y. (w, y, False) \<in> set (send_attempts new) \<longrightarrow> Log ''error'' name \<in> set new)
     \<and> (\<forall>w y. (w, y, True) \<in> set (send_attempts new) \<longrightarrow> (\<exists>tr0. send_raises env tr0 w = None))
     \<and> (conns = [] \<longrightarrow> new = [])"
proof (induction conns arbitrary: tr)
  case Nil
  show ?case by simp
next
  case (Cons w rest)
  show ?case
  proof (cases "send_raises env tr w")
    case None
    from Cons.IH[of "tr @ [SendText w x True]"] obtain new where
      n: "send_each env name x rest (tr @ [SendText w x True]) = (Ret (), (tr @ [SendText w x True]) @ new)"
         "map (\<lambda>(w, y, ok). (w, y)) (send_attempts new) = map (\<lambda>w. (w, x)) rest"
         "\<forall>w y. (w, y, False) \<in> set (send_attempts new) \<longrightarrow> (\<exists>tr0. send_raises env tr0 w \<noteq> None)"
         "\<forall>w y. (w, y, False) \<in> set (send_attempts new) \<longrightarrow> Log ''error'' name \<in> set new"
         "\<forall>w y. (w, y, True) \<in> set (send_attempts new) \<longrightarrow> (\<exists>tr0. send_raises env tr0 w = None)"
      by blast
    show ?thesis
      apply (rule exI[of _ "SendText w x True # new"])
      using None n by (auto simp: send_text_def send_attempts_append)
  next
    case (Some e)
    from Cons.IH[of "tr @ [SendText w x False, Log ''error'' name]"] obtain new where
      n: "send_each env name x rest (tr @ [SendText w x False, Log ''error'' name])
            = (Ret (), (tr @ [SendText w x False, Log ''error'' name]) @ new)"
         "map (\<lambda>(w, y, ok). (w, y)) (send_attempts new) = map (\<lambda>w. (w, x)) rest"
         "\<forall>w y. (w, y, False) \<in> set (send_attempts new) \<longrightarrow> (\<exists>tr0. send_raises env tr0 w \<noteq> None)"
         "\<forall>w y. (w, y, False) \<in> set (send_attempts new) \<longrightarrow> Log ''error'' name \<in> set new"
         "\<forall>w y. (w, y, True) \<in> set (send_attempts new) \<longrightarrow> (\<exists>tr0. send_raises env tr0 w = None)"
      by blast
    show ?thesis
      apply (rule exI[of _ "SendText w x False # Log ''error'' name # new"])
      using Some n by (auto simp: send_text_def send_attempts_append)
  qed
qed

lemma topic_loop_spec:
  "\<exists>new. topic_loop env m x users tr = (Ret (), tr @ new)
     \<and> map (\<lambda>(w, y, ok). (w, y)) (send_attempts new)
         = concat (map (\<lambda>u. map (\<lambda>w. (w, x)) (connections_for m u)) users)
     \<and> (\<forall>w y. (w, y, False) \<in> set (send_attempts new) \<longrightarrow> (\<exists>tr0. send_raises env tr0 w \<noteq> None))
     \<and> (users = [] \<longrightarrow> new = [])"
proof (induction users arbitrary: tr)
  case Nil
  show ?case by simp
next
  case (Cons u rest)
  show ?case
  proof (cases "map_of (active_connections m) u")
    case None
    from Cons.IH[of tr] obtain new where
      n: "topic_loop env m x rest tr = (Ret (), tr @ new)"
         "map (\<lambda>(w, y, ok). (w, y)) (send_attempts new)
            = concat (map (\<lambda>u. map (\<lambda>w. (w, x)) (connections_for m u)) rest)"
         "\<forall>w y. (w, y, False) \<in> set (send_attempts new) \<longrightarrow> (\<exists>tr0. send_raises env tr0 w \<noteq> None)"
      by blast
    show ?thesis
      apply (rule exI[of _ new])
      using None n by (simp add: connections_for_def)
  next
    case (Some conns)
    from send_each_spec[of env "''websocket_broadcast_error''" x conns tr] obtain n1 where
      a: "send_each env ''websocket_broadcast_error'' x conns tr = (Ret (), tr @ n1)"
         "map (\<lambda>(w, y, ok). (w, y)) (send_attempts n1) = map (\<lambda>w. (w, x)) conns"
         "\<forall>w y. (w, y, False) \<in> set (send_attempts n1) \<longrightarrow> (\<exists>tr0. send_raises env tr0 w \<noteq> None)"
      by blast
    from Cons.IH[of "tr @ n1"] obtain n2 where
      b: "topic_loop env m x rest (tr @ n1) = (Ret (), (tr @ n1) @ n2)"
         "map (\<lambda>(w, y, ok). (w, y)) (send_attempts n2)
            = concat (map (\<lambda>u. map (\<lambda>w. (w, x)) (connections_for m u)) rest)"
         "\<forall>w y. (w, y, False) \<in> set (send_attempts n2) \<longrightarrow> (\<exists>tr0. send_raises env tr0 w \<noteq> None)"
      by blast
    show ?thesis
      apply (rule exI[of _ "n1 @ n2"])
      using Some a b by (auto simp: connections_for_def send_attempts_append)
  qed
qed

lemma all_loop_ret: "\<exists>new. all_loop env x items tr = (Ret (), tr @ new)"
proof (induction items arbitrary: tr)
  case Nil
  show ?case by simp
next
  case (Cons p rest)
  obtain u conns where p: "p = (u, conns)" by (cases p)
  from send_each_spec[of env "''websocket_broadcast_all_error''" x conns tr] obtain n1 where
    a: "send_each env ''websocket_broadcast_all_error'' x conns tr = (Ret (), tr @ n1)" by blast
  from Cons.IH[of "tr @ n1"] obtain n2 where
    b: "all_loop env x rest (tr @ n1) = (Ret (), (tr @ n1) @ n2)" by blast
  show ?case using p a b by simp
qed

lemma attempts_proj_iff:
  "(w, y) \<in> set (map (\<lambda>(w, y, ok). (w, y)) atts) \<longleftrightarrow> (\<exists>ok. (w, y, ok) \<in> set atts)"
  by force

text \<open>
  C1. \<^verbatim>\<open>broadcast_to_topic\<close> returns normally and only appends to the trace. Every
  connection of every subscriber of the topic is sent the message (and receives it when
  sends on that connection do not raise); every send of the call carries the message and
  goes to a connection of a subscriber; a topic without an entry adds nothing to the trace.
\<close>

theorem broadcast_to_topic_delivers:
  "\<exists>new. broadcast_to_topic env m t e tr = (Ret (), tr @ new)
     \<and> (\<forall>u \<in> subscribers_of m t. \<forall>w \<in> set (connections_for m u).
           (\<exists>ok. (w, Dumps e, ok) \<in> set (send_attempts new))
           \<and> ((\<forall>tr0. send_raises env tr0 w = None)
                \<longrightarrow> (w, Dumps e, True) \<in> set (send_attempts new)))
     \<and> (\<forall>w x ok. (w, x, ok) \<in> set (send_attempts new) \<longrightarrow>
           x = Dumps e \<and> (\<exists>u \<in> subscribers_of m t. w \<in> set (connections_for m u)))
     \<and> (map_of (subscriptions m) t = None \<longrightarrow> new = [])"
proof (cases "map_of (subscriptions m) t")
  case None
  then show ?thesis
    by (simp add: broadcast_to_topic_def subscribers_of_def)
next
  case (Some users)
  from topic_loop_spec[of env m "Dumps e" users tr] obtain new where
    run: "topic_loop env m (Dumps e) users tr = (Ret (), tr @ new)"
    and proj: "map (\<lambda>(w, y, ok). (w, y)) (send_attempts new)
                 = concat (map (\<lambda>u. map (\<lambda>w. (w, Dumps e)) (connections_for m u)) users)"
    and fails: "\<forall>w y. (w, y, False) \<in> set (send_attempts new)
                  \<longrightarrow> (\<exists>tr0. send_raises env tr0 w \<noteq> None)"
    by blast
  have subs: "subscribers_of m t = set users"
    using Some by (simp add: subscribers_of_def)
  have mem: "(\<exists>ok. (w, y, ok) \<in> set (send_attempts new))
               \<longleftrightarrow> (y = Dumps e \<and> (\<exists>u \<in> set users. w \<in> set (connections_for m u)))" for w y
    unfolding attempts_proj_iff[symmetric] proj by auto
  have every: "(\<exists>ok. (w, Dumps e, ok) \<in> set (send_attempts new))
           \<and> ((\<forall>tr0. send_raises env tr0 w = None)
                \<longrightarrow> (w, Dumps e, True) \<in> set (send_attempts new))"
    if u: "u \<in> set users" and w: "w \<in> set (connections_for m u)" for u w
  proof -
    from mem[of w "Dumps e"] u w obtain ok where ok: "(w, Dumps e, ok) \<in> set (send_attempts new)"
      by blast
    show ?thesis
    proof (cases ok)
      case True
      with ok show ?thesis by auto
    next
      case False
      with ok have "(w, Dumps e, False) \<in> set (send_attempts new)" by simp
      with fails have "\<exists>tr0. send_raises env tr0 w \<noteq> None" by blast
      with ok show ?thesis by auto
    qed
  qed
  have only: "x = Dumps e \<and> (\<exists>u \<in> set users. w \<in> set (connections_for m u))"
    if "(w, x, ok) \<in> set (send_attempts new)" for w x ok
    using mem[of w x] that by blast
  show ?thesis
    apply (rule exI[of _ new])
    using Some run every only by (simp add: broadcast_to_topic_def subs)
qed

theorem broadcast_to_topic_delivers_witness:
  "''alice'' \<in> subscribers_of example_manager ''proofs''
   \<and> 2 \<in> set (connections_for example_manager ''alice'')
   \<and> (2, Dumps JNull, True)
       \<in> set (send_attempts (snd (broadcast_to_topic example_env example_manager ''proofs'' JNull [])))"
proof -
  from broadcast_to_topic_delivers[of example_env example_manager "''proofs''" JNull "[]"]
  obtain new where
    run: "broadcast_to_topic example_env example_manager ''proofs'' JNull [] = (Ret (), [] @ new)"
    and every: "\<forall>u \<in> subscribers_of example_manager ''proofs''.
                  \<forall>w \<in> set (connections_for example_manager u).
                    (\<exists>ok. (w, Dumps JNull, ok) \<in> set (send_attempts new))
                    \<and> ((\<forall>tr0. send_raises example_env tr0 w = None)
                         \<longrightarrow> (w, Dumps JNull, True) \<in> set (send_attempts new))"
    by blast
  have u: "''alice'' \<in> subscribers_of example_manager ''proofs''"
    by (simp add: subscribers_of_def example_manager_def)
  have w: "2 \<in> set (connections_for example_manager ''alice'')"
    by (simp add: connections_for_def example_manager_def)
  have ok: "\<forall>tr0. send_raises example_env tr0 2 = None"
    by (simp add: example_env_def)
  from every u w ok have "(2, Dumps JNull, True) \<in> set (send_attempts new)" by blast
  with run u w show ?thesis by simp
qed

text \<open>
  C5. When an identity has connections \<open>a\<close> and \<open>b\<close>, every send on \<open>a\<close> raises and sends on
  \<open>b\<close> do not, \<^verbatim>\<open>send_personal\<close> returns normally, the message is delivered on \<open>b\<close>, the
  attempt on \<open>a\<close> is made, fails and is logged.
\<close>

theorem send_personal_isolates_failure:
  assumes a: "a \<in> set (connections_for m u)"
    and b: "b \<in> set (connections_for m u)"
    and a_fails: "\<forall>tr0. send_raises env tr0 a \<noteq> None"
    and b_works: "\<forall>tr0. send_raises env tr0 b = None"
  shows "\<exists>new. send_personal env m u e tr = (Ret (), tr @ new)
           \<and> (b, Dumps e, True) \<in> set (send_attempts new)
           \<and> (a, Dumps e, True) \<notin> set (send_attempts new)
           \<and> (a, Dumps e, False) \<in> set (send_attempts new)
           \<and> Log ''error'' ''websocket_send_error'' \<in> set new"
proof -
  from a obtain conns where conns: "map_of (active_connections m) u = Some conns"
    by (cases "map_of (active_connections m) u") (auto simp: connections_for_def)
  then have cf: "connections_for m u = conns" by (simp add: connections_for_def)
  from send_each_spec[of env "''websocket_send_error''" "Dumps e" conns tr] obtain new where
    run: "send_each env ''websocket_send_error'' (Dumps e) conns tr = (Ret (), tr @ new)"
    and proj: "map (\<lambda>(w, y, ok). (w, y)) (send_attempts new) = map (\<lambda>w. (w, Dumps e)) conns"
    and fails: "\<forall>w y. (w, y, False) \<in> set (send_attempts new)
                  \<longrightarrow> (\<exists>tr0. send_raises env tr0 w \<noteq> None)"
    and logged: "\<forall>w y. (w, y, False) \<in> set (send_attempts new)
                  \<longrightarrow> Log ''error'' ''websocket_send_error'' \<in> set new"
    and succ: "\<forall>w y. (w, y, True) \<in> set (send_attempts new)
                  \<longrightarrow> (\<exists>tr0. send_raises env tr0 w = None)"
    by blast
  have mem: "(\<exists>ok. (w, y, ok) \<in> set (send_attempts new))
               \<longleftrightarrow> (y = Dumps e \<and> w \<in> set conns)" for w y
    unfolding attempts_proj_iff[symmetric] proj by auto
  from mem[of b "Dumps e"] b cf obtain okb where okb: "(b, Dumps e, okb) \<in> set (send_attempts new)"
    by blast
  have b_ok: "(b, Dumps e, True) \<in> set (send_attempts new)"
  proof (cases okb)
    case True
    with okb show ?thesis by simp
  next
    case False
    with okb have "(b, Dumps e, False) \<in> set (send_attempts new)" by simp
    with fails have "\<exists>tr0. send_raises env tr0 b \<noteq> None" by blast
    with b_works show ?thesis by simp
  qed
  from mem[of a "Dumps e"] a cf obtain oka where oka: "(a, Dumps e, oka) \<in> set (send_attempts new)"
    by blast
  have a_never: "(a, y, True) \<notin> set (send_attempts new)" for y
  proof
    assume "(a, y, True) \<in> set (send_attempts new)"
    with succ obtain tr0 where "send_raises env tr0 a = None" by blast
    with a_fails[rule_format, of tr0] show False by simp
  qed
  with oka have a_failed: "(a, Dumps e, False) \<in> set (send_attempts new)"
    by (cases oka) auto
  with logged have "Log ''error'' ''websocket_send_error'' \<in> set new" by blast
  with run conns b_ok a_never a_failed show ?thesis
    by (simp add: send_personal_def)
qed

theorem send_personal_isolates_failure_witness:
  "1 \<in> set (connections_for example_manager ''alice'')
   \<and> 2 \<in> set (connections_for example_manager ''alice'')
   \<and> (\<exists>new. send_personal example_env example_manager ''alice'' JNull [] = (Ret (), new)
         \<and> (2, Dumps JNull, True) \<in> set (send_attempts new)
         \<and> (1, Dumps JNull, False) \<in> set (send_attempts new))"
proof -
  have a: "1 \<in> set (connections_for example_manager ''alice'')"
    and b: "2 \<in> set (connections_for example_manager ''alice'')"
    by (simp_all add: connections_for_def example_manager_def)
  have fa: "\<forall>tr0. send_raises example_env tr0 1 \<noteq> None"
    and fb: "\<forall>tr0. send_raises example_env tr0 2 = None"
    by (simp_all add: example_env_def)
  from send_personal_isolates_failure[OF a b fa fb, of JNull "[]"] a b
  show ?thesis by auto
qed

subsection \<open>The registry\<close>

lemma registry_inv_init: "registry_inv init_manager"
  by (simp add: registry_inv_def init_manager_def)

lemma register_keys_distinct:
  "distinct (map fst (active_connections m))
     \<Longrightarrow> distinct (map fst (active_connections (register w u m)))"
  by (simp add: register_def Let_def distinct_update split: option.splits)

lemma disconnect_keys_distinct:
  "distinct (map fst (active_connections m))
     \<Longrightarrow> distinct (map fst (active_connections (disconnect w u m)))"
  by (simp add: disconnect_def Let_def distinct_update distinct_delete split: option.splits)

lemma register_no_empty:
  "\<forall>u'. map_of (active_connections m) u' \<noteq> Some []
     \<Longrightarrow> map_of (active_connections (register w u m)) u' \<noteq> Some []"
  by (simp add: register_def Let_def update_conv' split: option.splits)

lemma disconnect_no_empty:
  "\<forall>u'. map_of (active_connections m) u' \<noteq> Some []
     \<Longrightarrow> map_of (active_connections (disconnect w u m)) u' \<noteq> Some []"
  by (simp add: disconnect_def Let_def update_conv' delete_conv' split: option.splits)

lemma registry_inv_register: "registry_inv m \<Longrightarrow> registry_inv (register w u m)"
  unfolding registry_inv_def
  using register_keys_distinct register_no_empty by blast

lemma registry_inv_disconnect: "registry_inv m \<Longrightarrow> registry_inv (disconnect w u m)"
  unfolding registry_inv_def
  using disconnect_keys_distinct disconnect_no_empty by blast

lemma registry_inv_connect:
  "registry_inv m \<Longrightarrow> connect env w u (m, tr) = (r, m', tr') \<Longrightarrow> registry_inv m'"
  by (auto simp: connect_def registry_inv_register split: prod.splits res.splits)

lemma registry_inv_run_calls:
  "registry_inv (fst st) \<Longrightarrow> registry_inv (fst (run_calls env calls st))"
proof (induction env calls st rule: run_calls.induct)
  case (1 env st)
  then show ?case by simp
next
  case (2 env w u calls st)
  obtain m tr where st: "st = (m, tr)" by (cases st)
  obtain r m' tr' where c: "connect env w u (m, tr) = (r, m', tr')" by (cases "connect env w u (m, tr)")
  from 2 st c show ?case
    by (simp add: registry_inv_connect[OF _ c])
next
  case (3 env w u calls st)
  obtain m tr where st: "st = (m, tr)" by (cases st)
  from 3 st show ?case by (simp add: registry_inv_disconnect)
qed

lemma disconnect_last:
  "connections_for m u = [w] \<Longrightarrow> map_of (active_connections (disconnect w u m)) u = None"
  by (auto simp: connections_for_def disconnect_def Let_def delete_conv' split: option.splits)

text \<open>
  C3. After any sequence of \<^verbatim>\<open>connect\<close> and \<^verbatim>\<open>disconnect\<close> calls from the empty registry, no
  entry of \<^verbatim>\<open>active_connections\<close> holds an empty list, a key is present exactly when the
  identity has a connection, and \<^verbatim>\<open>disconnect\<close> of the only connection of an identity
  removes its key in that call.
\<close>

theorem registry_never_keeps_empty_list:
  assumes "m = fst (run_calls env calls (init_manager, tr))"
  shows "(\<forall>u conns. (u, conns) \<in> set (active_connections m) \<longrightarrow> conns \<noteq> [])
     \<and> (\<forall>u. (map_of (active_connections m) u \<noteq> None) = (connections_for m u \<noteq> []))
     \<and> (\<forall>w u. connections_for m u = [w]
            \<longrightarrow> map_of (active_connections (disconnect w u m)) u = None)"
proof -
  have inv: "registry_inv m"
    using assms registry_inv_run_calls[of "(init_manager, tr)" env calls]
    by (simp add: registry_inv_init)
  have a: "conns \<noteq> []" if "(u, conns) \<in> set (active_connections m)" for u conns
  proof -
    from inv that have "map_of (active_connections m) u = Some conns"
      by (simp add: registry_inv_def)
    with inv show ?thesis by (auto simp: registry_inv_def)
  qed
  have b: "(map_of (active_connections m) u \<noteq> None) = (connections_for m u \<noteq> [])" for u
    using inv by (auto simp: registry_inv_def connections_for_def split: option.splits)
  from a b disconnect_last show ?thesis by blast
qed

theorem registry_never_keeps_empty_list_witness:
  "active_connections
     (fst (run_calls example_env
             [Register 1 ''alice'', Register 2 ''alice'', Unregister 1 ''alice'']
             (init_manager, []))) = [(''alice'', [2])]
   \<and> map_of (active_connections
        (disconnect 2 ''alice''
           (fst (run_calls example_env
                   [Register 1 ''alice'', Register 2 ''alice'', Unregister 1 ''alice'']
                   (init_manager, []))))) ''alice'' = None"
proof -
  have run: "active_connections
     (fst (run_calls example_env
             [Register 1 ''alice'', Register 2 ''alice'', Unregister 1 ''alice'']
             (init_manager, []))) = [(''alice'', [2])]"
    by (simp add: connect_def accept_def example_env_def init_manager_def register_def
                  disconnect_def)
  then have "connections_for
     (fst (run_calls example_env
             [Register 1 ''alice'', Register 2 ''alice'', Unregister 1 ''alice'']
             (init_manager, []))) ''alice'' = [2]"
    by (simp add: connections_for_def)
  with run registry_never_keeps_empty_list[OF refl, of example_env
      "[Register 1 ''alice'', Register 2 ''alice'', Unregister 1 ''alice'']" "[]"]
  show ?thesis by blast
qed

text \<open>
  Whatever connections remain, \<^verbatim>\<open>disconnect\<close> leaves the identity in no subscriber set and
  touches no other identity's membership.
\<close>

lemma subscribers_of_disconnect:
  "subscribers_of (disconnect w u m) t = subscribers_of m t - {u}"
proof -
  have "map_of (map (\<lambda>(topic, users). (topic, set_discard u users)) subs) t
          = map_option (set_discard u) (map_of subs t)" for subs
    by (induction subs) auto
  then show ?thesis
    by (simp add: subscribers_of_def disconnect_def Let_def set_discard_def split: option.splits)
qed

text \<open>
  C2. The code at the state where \<^verbatim>\<open>alice\<close> has connections 1 and 2 and is subscribed to
  \<^verbatim>\<open>platform\<close>: \<^verbatim>\<open>disconnect\<close> of connection 1 leaves connection 2 registered and takes
  \<^verbatim>\<open>alice\<close> out of the subscribers of \<^verbatim>\<open>platform\<close>. The claim says that the membership of
  an identity that keeps a connection does not change.
\<close>

theorem disconnect_prunes_connected_identity:
  "connections_for (disconnect 1 ''alice'' example_manager) ''alice'' = [2]
   \<and> ''alice'' \<in> subscribers_of example_manager ''platform''
   \<and> ''alice'' \<notin> subscribers_of (disconnect 1 ''alice'' example_manager) ''platform''"
  by (simp add: disconnect_def example_manager_def connections_for_def subscribers_of_def
                set_discard_def)

subsection \<open>Subscriptions\<close>

lemma subscribers_of_subscribe:
  "subscribers_of (subscribe u t m) t' =
     (if t' = t then insert u (subscribers_of m t) else subscribers_of m t')"
  by (auto simp: subscribe_def subscribers_of_def set_add_def Let_def update_conv'
           split: option.splits)

lemma subscribers_of_unsubscribe:
  "subscribers_of (unsubscribe u t m) t' =
     (if t' = t then subscribers_of m t - {u} else subscribers_of m t')"
  by (auto simp: unsubscribe_def subscribers_of_def set_discard_def update_conv'
           split: option.splits)

lemma subscribe_idem: "subscribe u t (subscribe u t m) = subscribe u t m"
  by (auto simp: subscribe_def set_add_def Let_def update_conv' split: option.splits)

lemma unsubscribe_idem: "unsubscribe u t (unsubscribe u t m) = unsubscribe u t m"
  by (auto simp: unsubscribe_def set_discard_def update_conv' split: option.splits)

text \<open>
  C8, as amended. \<^verbatim>\<open>subscribe(u, t)\<close> followed by \<^verbatim>\<open>unsubscribe(u, t)\<close> leaves the subscribers
  of \<^verbatim>\<open>t\<close> without \<^verbatim>\<open>u\<close>: equal to what they were when \<^verbatim>\<open>u\<close> was not subscribed before,
  and one identity smaller when it was. No other topic changes. \<^verbatim>\<open>subscribe\<close> and
  \<^verbatim>\<open>unsubscribe\<close> are idempotent on the whole registry.
\<close>

theorem subscribe_unsubscribe_round_trip:
  "subscribers_of (unsubscribe u t (subscribe u t m)) t = subscribers_of m t - {u}
   \<and> (u \<notin> subscribers_of m t
        \<longrightarrow> subscribers_of (unsubscribe u t (subscribe u t m)) t = subscribers_of m t)
   \<and> (\<forall>t'. t' \<noteq> t
        \<longrightarrow> subscribers_of (unsubscribe u t (subscribe u t m)) t' = subscribers_of m t')
   \<and> subscribe u t (subscribe u t m) = subscribe u t m
   \<and> unsubscribe u t (unsubscribe u t m) = unsubscribe u t m"
  by (auto simp: subscribers_of_subscribe subscribers_of_unsubscribe subscribe_idem
                 unsubscribe_idem)

theorem subscribe_unsubscribe_round_trip_witness:
  "''bob'' \<notin> subscribers_of subscribed_manager ''swarm:42''
   \<and> subscribers_of (unsubscribe ''bob'' ''swarm:42'' (subscribe ''bob'' ''swarm:42'' subscribed_manager))
        ''swarm:42'' = {''alice''}"
proof -
  have a: "''bob'' \<notin> subscribers_of subscribed_manager ''swarm:42''"
    and b: "subscribers_of subscribed_manager ''swarm:42'' = {''alice''}"
    by (simp_all add: subscribers_of_def subscribed_manager_def)
  with subscribe_unsubscribe_round_trip[of "''bob''" "''swarm:42''" subscribed_manager]
  show ?thesis by simp
qed

text \<open>
  C8 as stated fails where \<^verbatim>\<open>u\<close> is already subscribed: the pair of calls removes it.
\<close>

theorem subscribe_unsubscribe_round_trip_counterexample:
  "subscribers_of (unsubscribe ''alice'' ''swarm:42'' (subscribe ''alice'' ''swarm:42'' subscribed_manager))
        ''swarm:42''
   \<noteq> subscribers_of subscribed_manager ''swarm:42''"
  by (simp add: subscribers_of_def subscribed_manager_def subscribe_def unsubscribe_def
                set_add_def set_discard_def)

subsection \<open>The bridge\<close>

lemma publishes_append: "publishes (a @ b) = publishes a @ publishes b"
  by (induction a rule: publishes.induct) simp_all

lemma send_each_publishes: "publishes (snd (send_each env name x conns tr)) = publishes tr"
  by (induction conns arbitrary: tr)
     (auto simp: send_text_def publishes_append split: option.splits)

lemma topic_loop_publishes: "publishes (snd (topic_loop env m x users tr)) = publishes tr"
proof (induction users arbitrary: tr)
  case Nil
  show ?case by simp
next
  case (Cons u rest)
  show ?case
  proof (cases "map_of (active_connections m) u")
    case None
    with Cons show ?thesis by simp
  next
    case (Some conns)
    from send_each_spec[of env "''websocket_broadcast_error''" x conns tr] obtain n1 where
      a: "send_each env ''websocket_broadcast_error'' x conns tr = (Ret (), tr @ n1)" by blast
    from send_each_publishes[of env "''websocket_broadcast_error''" x conns tr] a
    have "publishes (tr @ n1) = publishes tr" by simp
    with Some a Cons.IH[of "tr @ n1"] show ?thesis by simp
  qed
qed

lemma all_loop_publishes: "publishes (snd (all_loop env x items tr)) = publishes tr"
proof (induction items arbitrary: tr)
  case Nil
  show ?case by simp
next
  case (Cons p rest)
  obtain u conns where p: "p = (u, conns)" by (cases p)
  from send_each_spec[of env "''websocket_broadcast_all_error''" x conns tr] obtain n1 where
    a: "send_each env ''websocket_broadcast_all_error'' x conns tr = (Ret (), tr @ n1)" by blast
  from send_each_publishes[of env "''websocket_broadcast_all_error''" x conns tr] a
  have "publishes (tr @ n1) = publishes tr" by simp
  with p a Cons.IH[of "tr @ n1"] show ?case by simp
qed

lemma send_personal_ret: "\<exists>new. send_personal env m u e tr = (Ret (), tr @ new)"
proof (cases "map_of (active_connections m) u")
  case None
  then show ?thesis by (simp add: send_personal_def)
next
  case (Some conns)
  with send_each_spec[of env "''websocket_send_error''" "Dumps e" conns tr] show ?thesis
    by (auto simp: send_personal_def)
qed

lemma broadcast_to_topic_ret: "\<exists>new. broadcast_to_topic env m t e tr = (Ret (), tr @ new)"
proof (cases "map_of (subscriptions m) t")
  case None
  then show ?thesis by (simp add: broadcast_to_topic_def)
next
  case (Some users)
  with topic_loop_spec[of env m "Dumps e" users tr] show ?thesis
    by (auto simp: broadcast_to_topic_def)
qed

lemma broadcast_all_ret: "\<exists>new. broadcast_all env m e tr = (Ret (), tr @ new)"
  using all_loop_ret[of env "Dumps e" "active_connections m" tr]
  by (simp add: broadcast_all_def)

lemma publish_fallback_all:
  "\<not> get_redis env tr \<Longrightarrow>
     publish_via_redis env m ''all'' payload tr = broadcast_all env m payload tr"
  using broadcast_all_ret[of env m payload tr]
  by (auto simp: publish_via_redis_def)

lemma publish_fallback_user:
  "\<not> get_redis env tr \<Longrightarrow>
     publish_via_redis env m (''user:'' @ u) payload tr = send_personal env m u payload tr"
  using send_personal_ret[of env m u payload tr]
  by (auto simp: publish_via_redis_def startswith_def split_colon_1_def)

lemma publish_fallback_topic:
  "\<not> get_redis env tr \<Longrightarrow>
     publish_via_redis env m (''topic:'' @ t) payload tr = broadcast_to_topic env m t payload tr"
  using broadcast_to_topic_ret[of env m t payload tr]
  by (auto simp: publish_via_redis_def startswith_def split_colon_1_def)

lemma publish_fallback_publishes:
  "\<not> get_redis env tr \<Longrightarrow>
     publishes (snd (publish_via_redis env m target payload tr)) = publishes tr"
proof -
  assume off: "\<not> get_redis env tr"
  have a: "publishes (snd (broadcast_all env m payload tr)) = publishes tr"
    by (simp add: broadcast_all_def all_loop_publishes)
  have b: "publishes (snd (send_personal env m u payload tr)) = publishes tr" for u
    by (simp add: send_personal_def send_each_publishes split: option.splits)
  have c: "publishes (snd (broadcast_to_topic env m t payload tr)) = publishes tr" for t
    by (simp add: broadcast_to_topic_def topic_loop_publishes split: option.splits)
  have wrap: "publishes (snd (case r of (Ret x, tr') \<Rightarrow> (Ret (), tr')
                 | (Raise e, tr') \<Rightarrow> (Ret (), tr' @ [Log ''error'' ''redis_publish_error''])))
              = publishes (snd r)" for r :: "unit res \<times> event list"
    by (cases r) (auto simp: publishes_append split: res.splits)
  show ?thesis
    unfolding publish_via_redis_def wrap
    using off a b c by (simp split: res.splits)
qed

text \<open>
  C4. With a broker client, \<^verbatim>\<open>publish_via_redis\<close> makes one \<^verbatim>\<open>redis.publish\<close> call and sends
  nothing on any socket. Without one, it publishes nothing and does what the direct call
  does: \<^verbatim>\<open>broadcast_all\<close> for \<^verbatim>\<open>all\<close>, \<^verbatim>\<open>send_personal\<close> for \<^verbatim>\<open>user:<id>\<close>,
  \<^verbatim>\<open>broadcast_to_topic\<close> for \<^verbatim>\<open>topic:<name>\<close>. Either way it returns normally.
\<close>

theorem publish_via_redis_single_path:
  "(get_redis env tr \<longrightarrow>
      publish_via_redis env m target payload tr
        = (Ret (), tr @ Publish ''verifiai:ws:broadcast''
                           (Dumps (JObj [(''target'', JStr target), (''payload'', payload)]))
                           (publish_raises env tr = None)
                       # (if publish_raises env tr = None then []
                          else [Log ''error'' ''redis_publish_error'']))
      \<and> send_attempts (snd (publish_via_redis env m target payload tr)) = send_attempts tr)
   \<and> (\<not> get_redis env tr \<longrightarrow>
        publish_via_redis env m ''all'' payload tr = broadcast_all env m payload tr
      \<and> publish_via_redis env m (''user:'' @ u) payload tr = send_personal env m u payload tr
      \<and> publish_via_redis env m (''topic:'' @ t) payload tr
          = broadcast_to_topic env m t payload tr
      \<and> fst (publish_via_redis env m target payload tr) = Ret ()
      \<and> publishes (snd (publish_via_redis env m target payload tr)) = publishes tr)"
proof (cases "get_redis env tr")
  case True
  then show ?thesis
    by (cases "publish_raises env tr")
       (simp_all add: publish_via_redis_def redis_publish_def send_attempts_append)
next
  case False
  have "fst (publish_via_redis env m target payload tr) = Ret ()"
    by (auto simp: publish_via_redis_def split: res.splits prod.splits)
  with False publish_fallback_all[of env tr m payload]
    publish_fallback_user[of env tr m u payload]
    publish_fallback_topic[of env tr m t payload]
    publish_fallback_publishes[of env tr m target payload]
  show ?thesis by simp
qed

theorem publish_via_redis_single_path_witness:
  "get_redis broker_env []
   \<and> publish_via_redis broker_env example_manager ''user:bob'' JNull []
       = (Ret (), [Publish ''verifiai:ws:broadcast''
                     (Dumps (JObj [(''target'', JStr ''user:bob''), (''payload'', JNull)])) True])
   \<and> \<not> get_redis example_env []
   \<and> publish_via_redis example_env example_manager ''user:bob'' JNull []
       = (Ret (), [SendText 3 (Dumps JNull) True])"
proof -
  have on: "get_redis broker_env []" and ok: "publish_raises broker_env [] = None"
    by (simp_all add: broker_env_def example_env_def)
  have off: "\<not> get_redis example_env []"
    by (simp add: example_env_def)
  have direct: "send_personal example_env example_manager ''bob'' JNull []
                  = (Ret (), [SendText 3 (Dumps JNull) True])"
    by (simp add: send_personal_def example_manager_def send_text_def example_env_def)
  from publish_via_redis_single_path[of broker_env "[]" example_manager "''user:bob''" JNull]
    on ok
  have a: "publish_via_redis broker_env example_manager ''user:bob'' JNull []
       = (Ret (), [Publish ''verifiai:ws:broadcast''
                     (Dumps (JObj [(''target'', JStr ''user:bob''), (''payload'', JNull)])) True])"
    by simp
  from publish_via_redis_single_path[of example_env "[]" example_manager _ JNull "''bob''"]
    off direct
  have b: "publish_via_redis example_env example_manager ''user:bob'' JNull []
       = (Ret (), [SendText 3 (Dumps JNull) True])"
    by simp
  from on off a b show ?thesis by simp
qed

text \<open>
  C10. With a broker client whose \<^verbatim>\<open>publish\<close> raises, \<^verbatim>\<open>publish_via_redis\<close> returns normally;
  the trace gains the failed publish and the \<^verbatim>\<open>redis_publish_error\<close> log entry and nothing
  else, so nothing is sent on any socket: the fallback is not taken.
\<close>

theorem publish_via_redis_swallows_publish_failure:
  assumes "get_redis env tr" and "publish_raises env tr = Some e"
  shows "publish_via_redis env m target payload tr
           = (Ret (), tr @ [Publish ''verifiai:ws:broadcast''
                              (Dumps (JObj [(''target'', JStr target), (''payload'', payload)]))
                              False,
                            Log ''error'' ''redis_publish_error''])
         \<and> send_attempts (snd (publish_via_redis env m target payload tr)) = send_attempts tr"
  using assms
  by (simp add: publish_via_redis_def redis_publish_def send_attempts_append)

theorem publish_via_redis_swallows_publish_failure_witness:
  "get_redis broken_broker_env []
   \<and> publish_raises broken_broker_env [] = Some RedisError
   \<and> publish_via_redis broken_broker_env example_manager ''all'' JNull []
       = (Ret (), [Publish ''verifiai:ws:broadcast''
                     (Dumps (JObj [(''target'', JStr ''all''), (''payload'', JNull)])) False,
                   Log ''error'' ''redis_publish_error''])"
proof -
  have a: "get_redis broken_broker_env []"
    and b: "publish_raises broken_broker_env [] = Some RedisError"
    by (simp_all add: broken_broker_env_def example_env_def)
  from publish_via_redis_swallows_publish_failure[OF a b, of example_manager "''all''" JNull] a b
  show ?thesis by simp
qed

subsection \<open>The session gate and the endpoint\<close>

lemma verify_clerk_token_logs:
  "\<exists>logs. snd (verify_clerk_token env token tr) = tr @ logs \<and> (\<forall>ev \<in> set logs. \<exists>l n. ev = Log l n)"
  by (auto simp: verify_clerk_token_def get_jwks_client_def split: res.splits)

lemma verify_ws_token_logs:
  "\<exists>logs. snd (verify_ws_token env token tr) = tr @ logs \<and> (\<forall>ev \<in> set logs. \<exists>l n. ev = Log l n)"
proof -
  from verify_clerk_token_logs[of env token tr] obtain logs where
    l: "snd (verify_clerk_token env token tr) = tr @ logs" "\<forall>ev \<in> set logs. \<exists>l n. ev = Log l n"
    by blast
  have "snd (verify_ws_token env token tr) = snd (verify_clerk_token env token tr)"
    by (auto simp: verify_ws_token_def Let_def split: prod.splits option.splits res.splits)
  with l show ?thesis by auto
qed

lemma verify_ws_token_rejects:
  assumes "(\<exists>e. get_signing_key_from_jwt env token = Raise e)
     \<or> (\<exists>k e. get_signing_key_from_jwt env token = Ret k \<and> jwt_decode env token k = Raise e)
     \<or> (\<exists>k claims u. get_signing_key_from_jwt env token = Ret k
           \<and> jwt_decode env token k = Ret claims
           \<and> select_users env (dict_get claims ''sub'') = Ret [u] \<and> \<not> is_active u)"
  shows "fst (verify_ws_token env token tr) = Ret None"
  using assms
  by (auto simp: verify_ws_token_def verify_clerk_token_def get_jwks_client_def Let_def
           split: prod.splits option.splits res.splits)

text \<open>
  C6. When the token does not verify (PyJWT raises on it: malformed, bad signature,
  expired) or the account it resolves to is inactive, \<^verbatim>\<open>verify_ws_token\<close> returns \<^verbatim>\<open>None\<close>
  and writes only log entries; the endpoint then calls \<^verbatim>\<open>close\<close> with code 4001 and does
  nothing else: the registry is the one it started from, and the run is over.
\<close>

theorem rejected_credential_closes_4001:
  assumes "(\<exists>e. get_signing_key_from_jwt env token = Raise e)
     \<or> (\<exists>k e. get_signing_key_from_jwt env token = Ret k \<and> jwt_decode env token k = Raise e)
     \<or> (\<exists>k claims u. get_signing_key_from_jwt env token = Ret k
           \<and> jwt_decode env token k = Ret claims
           \<and> select_users env (dict_get claims ''sub'') = Ret [u] \<and> \<not> is_active u)"
  shows "\<exists>logs. verify_ws_token env token tr = (Ret None, tr @ logs)
           \<and> (\<forall>ev \<in> set logs. \<exists>l n. ev = Log l n)
           \<and> websocket_endpoint env w token frames (m, tr)
               = ((case close_raises env (tr @ logs) w of None \<Rightarrow> Returned | Some e \<Rightarrow> Raised e),
                  m,
                  tr @ logs @ [Close w 4001 ''Invalid authentication token''
                                 (close_raises env (tr @ logs) w = None)])"
proof -
  from verify_ws_token_logs[of env token tr] obtain logs where
    l: "snd (verify_ws_token env token tr) = tr @ logs" "\<forall>ev \<in> set logs. \<exists>l n. ev = Log l n"
    by blast
  from verify_ws_token_rejects[OF assms, of tr] l(1)
  have v: "verify_ws_token env token tr = (Ret None, tr @ logs)"
    by (cases "verify_ws_token env token tr") simp
  have "websocket_endpoint env w token frames (m, tr)
               = ((case close_raises env (tr @ logs) w of None \<Rightarrow> Returned | Some e \<Rightarrow> Raised e),
                  m,
                  tr @ logs @ [Close w 4001 ''Invalid authentication token''
                                 (close_raises env (tr @ logs) w = None)])"
    by (simp add: websocket_endpoint_def v close_def split: option.splits)
  with v l(2) show ?thesis by blast
qed

theorem rejected_credential_closes_4001_witness:
  "jwt_decode example_env ''stale'' ''key'' = Raise ExpiredSignatureError
   \<and> verify_ws_token example_env ''stale'' [] = (Ret None, [Log ''warning'' ''token_expired''])
   \<and> websocket_endpoint example_env 4 ''stale'' [] (example_manager, [])
       = (Returned, example_manager,
          [Log ''warning'' ''token_expired'', Close 4 4001 ''Invalid authentication token'' True])"
proof -
  have k: "get_signing_key_from_jwt example_env ''stale'' = Ret ''key''"
    and d: "jwt_decode example_env ''stale'' ''key'' = Raise ExpiredSignatureError"
    by (simp_all add: example_env_def)
  then have h: "(\<exists>e. get_signing_key_from_jwt example_env ''stale'' = Raise e)
     \<or> (\<exists>k e. get_signing_key_from_jwt example_env ''stale'' = Ret k
           \<and> jwt_decode example_env ''stale'' k = Raise e)
     \<or> (\<exists>k claims u. get_signing_key_from_jwt example_env ''stale'' = Ret k
           \<and> jwt_decode example_env ''stale'' k = Ret claims
           \<and> select_users example_env (dict_get claims ''sub'') = Ret [u] \<and> \<not> is_active u)"
    by blast
  have v: "verify_ws_token example_env ''stale'' [] = (Ret None, [Log ''warning'' ''token_expired''])"
    by (simp add: verify_ws_token_def verify_clerk_token_def get_jwks_client_def example_env_def)
  have c: "close_raises example_env tr 4 = None" for tr
    by (simp add: example_env_def)
  from rejected_credential_closes_4001[OF h, of "[]" 4 "[]" example_manager] v c d
  show ?thesis by auto
qed

lemma delivered_append: "delivered w (a @ b) = delivered w a @ delivered w b"
  by (simp add: delivered_def send_attempts_append)

lemma send_json_extends: "\<exists>more. snd (send_json env w data tr) = tr @ more"
  by (simp add: send_json_def send_text_def split: option.splits)

lemma handle_frame_extends:
  assumes "handle_frame env w u f (m, tr) = Some (r, m', tr')"
  shows "\<exists>more. tr' = tr @ more"
proof -
  have sj: "\<exists>more. tr'' = tr @ more" if "send_json env w data tr = (r', tr'')" for data r' tr''
    using send_json_extends[of env w data tr] that by simp
  from assms show ?thesis
    by (auto simp: handle_frame_def receive_json_def Let_def
             split: frame.splits json.splits if_splits option.splits res.splits prod.splits
             dest: sj)
qed

lemma message_loop_extends:
  "\<exists>more. snd (snd (message_loop env w u frames (m, tr))) = tr @ more"
proof (induction frames arbitrary: m tr)
  case Nil
  show ?case by simp
next
  case (Cons f frames)
  show ?case
  proof (cases "handle_frame env w u f (m, tr)")
    case None
    then show ?thesis by simp
  next
    case (Some p)
    obtain r m' tr' where p: "p = (r, m', tr')" by (cases p)
    from handle_frame_extends[of env w u f m tr r m' tr'] Some p
    obtain more where more: "tr' = tr @ more" by blast
    show ?thesis
    proof (cases r)
      case (Ret x)
      from Cons.IH[of m' tr'] obtain more' where "snd (snd (message_loop env w u frames (m', tr'))) = tr' @ more'"
        by blast
      with Some p Ret more show ?thesis by simp
    next
      case (Raise e)
      with Some p more show ?thesis by simp
    qed
  qed
qed

text \<open>
  C7, as amended. A frame that parses to a JSON object whose \<^verbatim>\<open>action\<close> is none of
  \<^verbatim>\<open>ping\<close>, \<^verbatim>\<open>subscribe\<close>, \<^verbatim>\<open>unsubscribe\<close> (an absent action too) is answered, when the send
  does not raise, with one \<^verbatim>\<open>error\<close> message on the same connection; the registry is
  unchanged and the loop goes on with the next frame. A frame that is not JSON, or is JSON
  but not an object, is not answered: the exception is logged, \<^verbatim>\<open>disconnect\<close> is called for
  the connection and the handler returns, whatever frames would follow.
\<close>

theorem inbound_message_error_handling:
  "(dict_get kvs ''action'' \<noteq> JStr ''ping''
      \<and> dict_get kvs ''action'' \<noteq> JStr ''subscribe''
      \<and> dict_get kvs ''action'' \<noteq> JStr ''unsubscribe''
      \<and> send_raises env tr w = None
    \<longrightarrow> handle_frame env w u (Parsed (JObj kvs)) (m, tr)
           = Some (Ret (), m,
               tr @ [SendText w
                       (Dumps (JObj [(''type'', JStr ''error''),
                                     (''timestamp'', JStr (utcnow env tr)),
                                     (''data'', JObj [(''message'',
                                        JStr (''Unknown action: ''
                                              @ py_str env (dict_get kvs ''action'')))])]))
                       True])
         \<and> message_loop env w u (Parsed (JObj kvs) # frames) (m, tr)
           = message_loop env w u frames
               (m, tr @ [SendText w
                       (Dumps (JObj [(''type'', JStr ''error''),
                                     (''timestamp'', JStr (utcnow env tr)),
                                     (''data'', JObj [(''message'',
                                        JStr (''Unknown action: ''
                                              @ py_str env (dict_get kvs ''action'')))])]))
                       True]))
   \<and> message_loop env w u (NotJson # frames) (m, tr)
       = (Returned, disconnect w u m, tr @ [Log ''error'' ''websocket_error''])
   \<and> ((\<forall>kvs'. data \<noteq> JObj kvs')
        \<longrightarrow> message_loop env w u (Parsed data # frames) (m, tr)
            = (Returned, disconnect w u m, tr @ [Log ''error'' ''websocket_error'']))"
proof -
  have unknown: "handle_frame env w u (Parsed (JObj kvs)) (m, tr)
           = Some (Ret (), m,
               tr @ [SendText w
                       (Dumps (JObj [(''type'', JStr ''error''),
                                     (''timestamp'', JStr (utcnow env tr)),
                                     (''data'', JObj [(''message'',
                                        JStr (''Unknown action: ''
                                              @ py_str env (dict_get kvs ''action'')))])]))
                       True])"
    if "dict_get kvs ''action'' \<noteq> JStr ''ping''"
      and "dict_get kvs ''action'' \<noteq> JStr ''subscribe''"
      and "dict_get kvs ''action'' \<noteq> JStr ''unsubscribe''"
      and "send_raises env tr w = None"
    using that by (simp add: handle_frame_def receive_json_def send_json_def send_text_def)
  have not_json: "handle_frame env w u NotJson (m, tr) = Some (Raise JSONDecodeError, m, tr)"
    by (simp add: handle_frame_def receive_json_def)
  have not_object: "handle_frame env w u (Parsed data) (m, tr) = Some (Raise AttributeError, m, tr)"
    if "\<forall>kvs'. data \<noteq> JObj kvs'"
    using that by (cases data) (simp_all add: handle_frame_def receive_json_def)
  show ?thesis
    using unknown not_json not_object by simp
qed

theorem inbound_message_error_handling_witness:
  "message_loop example_env 2 ''alice'' [Parsed (JObj [(''action'', JStr ''dance'')])]
     (example_manager, [])
   = (Receiving, example_manager,
      [SendText 2
         (Dumps (JObj [(''type'', JStr ''error''),
                       (''timestamp'', JStr ''2026-01-01T00:00:00''),
                       (''data'', JObj [(''message'', JStr ''Unknown action: dance'')])]))
         True])
   \<and> message_loop example_env 2 ''alice'' [Parsed (JNum 7), Parsed (JObj [])] (example_manager, [])
   = (Returned, disconnect 2 ''alice'' example_manager, [Log ''error'' ''websocket_error''])"
proof -
  have a: "dict_get [(''action'', JStr ''dance'')] ''action'' \<noteq> JStr ''ping''"
    and b: "dict_get [(''action'', JStr ''dance'')] ''action'' \<noteq> JStr ''subscribe''"
    and c: "dict_get [(''action'', JStr ''dance'')] ''action'' \<noteq> JStr ''unsubscribe''"
    by (simp_all add: dict_get_def)
  have d: "send_raises example_env [] 2 = None"
    by (simp add: example_env_def)
  have e: "\<forall>kvs'. JNum 7 \<noteq> JObj kvs'"
    by simp
  from inbound_message_error_handling[of "[(''action'', JStr ''dance'')]" example_env "[]" 2
      "''alice''" example_manager "[]" "JNum 7"] a b c d
  have one: "message_loop example_env 2 ''alice'' [Parsed (JObj [(''action'', JStr ''dance'')])]
     (example_manager, [])
   = (Receiving, example_manager,
      [SendText 2
         (Dumps (JObj [(''type'', JStr ''error''),
                       (''timestamp'', JStr ''2026-01-01T00:00:00''),
                       (''data'', JObj [(''message'', JStr ''Unknown action: dance'')])]))
         True])"
    by (simp add: example_env_def dict_get_def)
  from inbound_message_error_handling[of "[]" example_env "[]" 2
      "''alice''" example_manager "[Parsed (JObj [])]" "JNum 7"] e
  have two: "message_loop example_env 2 ''alice'' [Parsed (JNum 7), Parsed (JObj [])]
               (example_manager, [])
   = (Returned, disconnect 2 ''alice'' example_manager, [Log ''error'' ''websocket_error''])"
    by simp
  from one two show ?thesis by simp
qed

text \<open>
  C7 as stated fails on a frame that is not JSON, and on JSON that is not an object: no
  \<^verbatim>\<open>error\<close> message is sent, the exception is logged, the connection is taken out of the
  registry and the handler returns.
\<close>

theorem malformed_frame_counterexample:
  "message_loop example_env 2 ''alice'' [NotJson] (example_manager, [])
     = (Returned,
        \<lparr>active_connections = [(''alice'', [1]), (''bob'', [3])],
         subscriptions = [(''proofs'', [''carol'']), (''platform'', [''bob''])]\<rparr>,
        [Log ''error'' ''websocket_error''])
   \<and> message_loop example_env 2 ''alice'' [Parsed (JArr [JStr ''ping''])] (example_manager, [])
     = (Returned,
        \<lparr>active_connections = [(''alice'', [1]), (''bob'', [3])],
         subscriptions = [(''proofs'', [''carol'']), (''platform'', [''bob''])]\<rparr>,
        [Log ''error'' ''websocket_error''])"
  by (simp add: handle_frame_def receive_json_def disconnect_def example_manager_def
                set_discard_def)

lemma subscribers_of_register: "subscribers_of (register w u m) t = subscribers_of m t"
  by (simp add: subscribers_of_def register_def Let_def split: option.splits)

lemma connections_for_subscribe: "connections_for (subscribe u t m) u' = connections_for m u'"
  by (simp add: connections_for_def subscribe_def Let_def split: option.splits)

lemma connections_for_register:
  "connections_for (register w u m) u = connections_for m u @ [w]"
  by (simp add: connections_for_def register_def Let_def update_conv' split: option.splits)

text \<open>
  C9, as amended. With a credential that verifies and an \<^verbatim>\<open>accept\<close> that returns, the
  connection is registered and the identity is added to the subscribers of \<^verbatim>\<open>proofs\<close>,
  \<^verbatim>\<open>agents\<close>, \<^verbatim>\<open>settlements\<close> and \<^verbatim>\<open>platform\<close>; no other subscriber set changes, so the
  identity keeps the subscriptions it had. When the welcome send returns, the frames
  delivered on the connection during the run begin with the \<^verbatim>\<open>connected\<close> message, whose data
  lists the four topics, whatever inbound frames follow.
\<close>

theorem valid_credential_default_subscriptions:
  assumes "verify_ws_token env token tr = (Ret (Some usr), tr1)"
    and "accept_raises env tr1 w = None"
  shows "(\<exists>st m' tr'. websocket_endpoint env w token [] (m, tr) = (st, m', tr')
           \<and> w \<in> set (connections_for m' (id_str usr))
           \<and> (\<forall>t. subscribers_of m' t =
                 (if t = ''proofs'' \<or> t = ''agents'' \<or> t = ''settlements'' \<or> t = ''platform''
                  then insert (id_str usr) (subscribers_of m t)
                  else subscribers_of m t)))
       \<and> (send_raises env (tr1 @ [Accept w True]) w = None \<longrightarrow>
            (\<exists>rest. delivered w (snd (snd (websocket_endpoint env w token frames (m, tr))))
               = delivered w tr
                 @ Dumps (JObj [(''type'', JStr ''connected''),
                     (''timestamp'', JStr (utcnow env (tr1 @ [Accept w True]))),
                     (''data'', JObj [(''user_id'', JStr (id_str usr)),
                        (''message'', JStr ''Connected to VerifiAI real-time updates''),
                        (''subscriptions'', JArr [JStr ''proofs'', JStr ''agents'',
                                                  JStr ''settlements'', JStr ''platform''])])])
                 # rest))"
proof -
  let ?m1 = "register w (id_str usr) m"
  let ?m2 = "subscribe (id_str usr) ''platform''
               (subscribe (id_str usr) ''settlements''
                 (subscribe (id_str usr) ''agents''
                   (subscribe (id_str usr) ''proofs'' ?m1)))"
  let ?tr2 = "tr1 @ [Accept w True]"
  have c: "connect env w (id_str usr) (m, tr1) = (Ret (), ?m1, ?tr2)"
    using assms(2) by (simp add: connect_def accept_def)
  have reg: "w \<in> set (connections_for ?m2 (id_str usr))"
    by (simp add: connections_for_subscribe connections_for_register)
  have subs: "subscribers_of ?m2 t =
                 (if t = ''proofs'' \<or> t = ''agents'' \<or> t = ''settlements'' \<or> t = ''platform''
                  then insert (id_str usr) (subscribers_of m t)
                  else subscribers_of m t)" for t
    by (simp add: subscribers_of_subscribe subscribers_of_register)
  have reg_run: "\<exists>st tr'. websocket_endpoint env w token [] (m, tr) = (st, ?m2, tr')"
    using assms(1) c
    by (cases "send_json env w (connected_message env (id_str usr) ?tr2) ?tr2")
       (auto simp: websocket_endpoint_def Let_def split: res.splits)
  have greeted: "\<exists>rest. delivered w (snd (snd (websocket_endpoint env w token frames (m, tr))))
               = delivered w tr @ Dumps (connected_message env (id_str usr) ?tr2) # rest"
    if ok: "send_raises env ?tr2 w = None"
  proof -
    let ?tr3 = "?tr2 @ [SendText w (Dumps (connected_message env (id_str usr) ?tr2)) True]"
    from ok have sj: "send_json env w (connected_message env (id_str usr) ?tr2) ?tr2 = (Ret (), ?tr3)"
      by (simp add: send_json_def send_text_def)
    from message_loop_extends[of env w "id_str usr" frames ?m2 ?tr3] obtain more where
      more: "snd (snd (message_loop env w (id_str usr) frames (?m2, ?tr3))) = ?tr3 @ more"
      by blast
    have run: "websocket_endpoint env w token frames (m, tr)
                 = message_loop env w (id_str usr) frames (?m2, ?tr3)"
      using assms(1) c sj by (simp add: websocket_endpoint_def Let_def)
    from verify_ws_token_logs[of env token tr] assms(1) obtain logs where
      logs: "tr1 = tr @ logs" "\<forall>ev \<in> set logs. \<exists>l n. ev = Log l n"
      by auto
    have "send_attempts logs = []"
      using logs(2) by (induction logs) auto
    then have quiet: "delivered w tr1 = delivered w tr"
      using logs(1) by (simp add: delivered_def send_attempts_append)
    show ?thesis
      apply (rule exI[of _ "delivered w more"])
      using run more quiet by (simp add: delivered_append) (simp add: delivered_def)
  qed
  from reg_run reg subs greeted show ?thesis
    by (auto simp: connected_message_def)
qed

theorem valid_credential_default_subscriptions_witness:
  "verify_ws_token example_env ''good'' []
     = (Ret (Some \<lparr>id_str = ''alice'', is_active = True\<rparr>), [])
   \<and> subscribers_of (fst (snd (websocket_endpoint example_env 2 ''good'' [] (init_manager, []))))
        ''platform'' = {''alice''}
   \<and> subscribers_of (fst (snd (websocket_endpoint example_env 2 ''good'' [] (init_manager, []))))
        ''swarm:42'' = {}
   \<and> (\<exists>rest. delivered 2 (snd (snd (websocket_endpoint example_env 2 ''good''
                                         [Parsed (JObj [])] (init_manager, []))))
         = Dumps (JObj [(''type'', JStr ''connected''),
                     (''timestamp'', JStr ''2026-01-01T00:00:00''),
                     (''data'', JObj [(''user_id'', JStr ''alice''),
                        (''message'', JStr ''Connected to VerifiAI real-time updates''),
                        (''subscriptions'', JArr [JStr ''proofs'', JStr ''agents'',
                                                  JStr ''settlements'', JStr ''platform''])])])
           # rest)"
proof -
  have v: "verify_ws_token example_env ''good'' []
             = (Ret (Some \<lparr>id_str = ''alice'', is_active = True\<rparr>), [])"
    by (simp add: verify_ws_token_def verify_clerk_token_def get_jwks_client_def example_env_def
                  dict_get_def)
  have a: "accept_raises example_env [] 2 = None"
    and s: "send_raises example_env ([] @ [Accept 2 True]) 2 = None"
    and t: "utcnow example_env ([] @ [Accept 2 True]) = ''2026-01-01T00:00:00''"
    by (simp_all add: example_env_def)
  have e: "subscribers_of init_manager t = {}" for t
    by (simp add: subscribers_of_def init_manager_def)
  have d: "delivered 2 [] = []"
    by (simp add: delivered_def)
  from valid_credential_default_subscriptions[OF v a, of init_manager "[Parsed (JObj [])]"]
    v s t e d
  show ?thesis by auto
qed

text \<open>
  C9 as stated fails for an identity that is subscribed to something already: after the
  second connection of \<^verbatim>\<open>alice\<close> is registered she has both connections and is subscribed
  to \<^verbatim>\<open>swarm:42\<close> beside the four default topics.
\<close>

theorem default_subscriptions_not_exact_counterexample:
  "connections_for
     (fst (snd (websocket_endpoint example_env 3 ''good'' [] after_first_connection))) ''alice''
     = [2, 3]
   \<and> ''alice'' \<in> subscribers_of
        (fst (snd (websocket_endpoint example_env 3 ''good'' [] after_first_connection)))
        ''swarm:42''"
  by code_simp

end
